theory Spec2Isabelle
  imports Complex_Main
begin

section \<open>Supply-curve transmission features (reV/handlers/transmission.py)\<close>

text \<open>
  A shallow embedding of the class \<open>TransmissionFeatures\<close>. Python floats are idealised
  as real numbers: every sum, difference, product and quotient below is exact, where the
  source rounds to binary64. Exceptions are values of type \<open>error\<close>; a method that
  mutates \<open>self\<close> returns the new catalog. When a method raises, the model returns only
  the error: what the source had already written to \<open>self\<close> before the raise is not
  represented.
\<close>

subsection \<open>Data model\<close>

type_synonym gid = int

text \<open>
  A feature is one entry of the dictionary \<open>self._features\<close>, in the shapes that
  \<open>_features_from_table\<close> builds: a record with the key \<open>type\<close> and, depending on it,
  \<open>avail_cap\<close> (a number, or \<open>None\<close> for a \<open>PCALoadCen\<close>) or \<open>lines\<close>. \<open>Unknown name\<close>
  is a record that holds nothing but an unrecognised \<open>type\<close>.
\<close>

datatype feature =
    TransLine real
  | Substation "gid list"
  | LoadCen real
  | PCALoadCen
  | Unknown string

datatype error =
    KeyError | ValueError | IndexError | RuntimeError | ZeroDivisionError
  | TypeError | AttributeError

type_synonym features = "gid \<rightharpoonup> feature"

record catalog =
  features :: features
  feature_gid_list :: "gid list"
  available_mask :: "bool list"
  line_tie_in_cost :: real
  line_cost :: real
  station_tie_in_cost :: real
  center_tie_in_cost :: real
  sink_tie_in_cost :: real
  available_capacity_fraction :: real

text \<open>\<open>feature['type']\<close>\<close>

fun ftype :: "feature \<Rightarrow> string" where
  "ftype (TransLine c) = ''TransLine''"
| "ftype (Substation ls) = ''Substation''"
| "ftype (LoadCen c) = ''LoadCen''"
| "ftype PCALoadCen = ''PCALoadCen''"
| "ftype (Unknown name) = name"

text \<open>\<open>feature['avail_cap']\<close>: a KeyError where the record has no such key.\<close>

fun avail_cap :: "feature \<Rightarrow> error + real option" where
  "avail_cap (TransLine c) = Inr (Some c)"
| "avail_cap (LoadCen c) = Inr (Some c)"
| "avail_cap PCALoadCen = Inr None"
| "avail_cap (Substation ls) = Inl KeyError"
| "avail_cap (Unknown name) = Inl KeyError"

text \<open>The assignment \<open>feature['avail_cap'] = c\<close> on a record that has the key.\<close>

fun set_avail_cap :: "feature \<Rightarrow> real \<Rightarrow> feature" where
  "set_avail_cap (TransLine a) c = TransLine c"
| "set_avail_cap (LoadCen a) c = LoadCen c"
| "set_avail_cap f c = f"

subsection \<open>Capacity of a feature\<close>

text \<open>
  The loop of \<open>_substation_capacity\<close>, with its two accumulators and the list of the
  warnings it has emitted (the \<open>type\<close> of each member that is not a TransLine).
\<close>

fun substation_capacity_loop ::
  "features \<Rightarrow> gid list \<Rightarrow> real \<Rightarrow> real \<Rightarrow> string list
     \<Rightarrow> error + (real \<times> real \<times> string list)" where
  "substation_capacity_loop fs [] acc line_max warns = Inr (acc, line_max, warns)"
| "substation_capacity_loop fs (g # rest) acc line_max warns =
     (case fs g of
        None \<Rightarrow> Inl KeyError
      | Some (TransLine line_cap) \<Rightarrow>
          substation_capacity_loop fs rest (acc + line_cap)
            (if line_cap > line_max then line_cap else line_max) warns
      | Some line \<Rightarrow>
          substation_capacity_loop fs rest acc line_max (warns @ [ftype line]))"

definition substation_capacity ::
  "features \<Rightarrow> gid list \<Rightarrow> bool \<Rightarrow> error + (real \<times> string list)" where
  "substation_capacity fs line_gids line_limited =
     (case substation_capacity_loop fs line_gids 0 0 [] of
        Inl e \<Rightarrow> Inl e
      | Inr (acc, line_max, warns) \<Rightarrow>
          Inr (if line_limited \<and> line_max < acc / 2 then line_max else acc / 2, warns))"

text \<open>
  \<open>available_capacity(gid, **kwargs)\<close>: the value (\<open>None\<close> for a PCALoadCen) and the
  warnings emitted on the way.
\<close>

definition available_capacity ::
  "catalog \<Rightarrow> gid \<Rightarrow> bool \<Rightarrow> error + (real option \<times> string list)" where
  "available_capacity st g line_limited =
     (case features st g of
        None \<Rightarrow> Inl KeyError
      | Some (Substation lines) \<Rightarrow>
          (case substation_capacity (features st) lines line_limited of
             Inl e \<Rightarrow> Inl e
           | Inr (c, warns) \<Rightarrow> Inr (Some c, warns))
      | Some f \<Rightarrow>
          (case avail_cap f of Inl e \<Rightarrow> Inl e | Inr c \<Rightarrow> Inr (c, [])))"

subsection \<open>Availability mask\<close>

text \<open>\<open>list.index\<close>: the first position of the value, a ValueError when it is absent.\<close>

fun index_of :: "gid list \<Rightarrow> gid \<Rightarrow> error + nat" where
  "index_of [] g = Inl ValueError"
| "index_of (x # xs) g =
     (if x = g then Inr 0
      else case index_of xs g of Inl e \<Rightarrow> Inl e | Inr i \<Rightarrow> Inr (Suc i))"

definition check_availability :: "catalog \<Rightarrow> gid \<Rightarrow> error + bool" where
  "check_availability st g =
     (case index_of (feature_gid_list st) g of
        Inl e \<Rightarrow> Inl e
      | Inr i \<Rightarrow>
          if i < length (available_mask st) then Inr (available_mask st ! i)
          else Inl IndexError)"

text \<open>
  \<open>_update_availability(gid)\<close>, as \<open>connect\<close> calls it: without keyword arguments, so
  never line-limited. The warnings of the capacity query are dropped here and in every
  caller above: they are no part of the catalog.
\<close>

definition update_availability :: "catalog \<Rightarrow> gid \<Rightarrow> error + catalog" where
  "update_availability st g =
     (case available_capacity st g False of
        Inl e \<Rightarrow> Inl e
      | Inr (c, warns) \<Rightarrow>
          if c = Some 0 then
            (case index_of (feature_gid_list st) g of
               Inl e \<Rightarrow> Inl e
             | Inr i \<Rightarrow>
                 if i < length (available_mask st)
                 then Inr (st\<lparr>available_mask := (available_mask st)[i := False]\<rparr>)
                 else Inl IndexError)
          else Inr st)"

subsection \<open>Reserving capacity\<close>

text \<open>
  \<open>_connect(gid, capacity)\<close> reads and writes \<open>self._features\<close> only, as do the three
  substation methods below; they are functions of the feature dictionary.
\<close>

definition connect_line :: "features \<Rightarrow> gid \<Rightarrow> real \<Rightarrow> error + features" where
  "connect_line fs g capacity =
     (case fs g of
        None \<Rightarrow> Inl KeyError
      | Some f \<Rightarrow>
          (case avail_cap f of
             Inl e \<Rightarrow> Inl e
           | Inr None \<Rightarrow> Inl TypeError
           | Inr (Some a) \<Rightarrow>
               if a < capacity then Inl RuntimeError
               else Inr (fs(g \<mapsto> set_avail_cap f (a - capacity)))))"

text \<open>
  The \<open>for\<close> loop of \<open>_fill_lines\<close> over the positions whose capacity is below the
  equal share: each such line is asked for the capacity recorded in \<open>line_caps\<close>.
\<close>

fun fill_loop :: "features \<Rightarrow> (gid \<times> real) list \<Rightarrow> real \<Rightarrow> error + (features \<times> real)" where
  "fill_loop fs [] capacity = Inr (fs, capacity)"
| "fill_loop fs ((g, apply_cap) # rest) capacity =
     (case connect_line fs g apply_cap of
        Inl e \<Rightarrow> Inl e
      | Inr fs' \<Rightarrow> fill_loop fs' rest (capacity - apply_cap))"

text \<open>
  \<open>_fill_lines(line_gids, line_caps, capacity)\<close>. The two arrays are parallel (the
  callers build them with equal lengths). Dividing by \<open>len(line_gids) = 0\<close> is the
  ZeroDivisionError of Python's number types.
\<close>

definition fill_lines ::
  "features \<Rightarrow> gid list \<Rightarrow> real list \<Rightarrow> real
     \<Rightarrow> error + (gid list \<times> real list \<times> real \<times> features)" where
  "fill_lines fs line_gids line_caps capacity =
     (if length line_gids = 0 then Inl ZeroDivisionError
      else
        let apply_cap = capacity / real (length line_gids) in
        (case fill_loop fs (filter (\<lambda>(g, c). c < apply_cap) (zip line_gids line_caps))
                capacity of
           Inl e \<Rightarrow> Inl e
         | Inr (fs', capacity') \<Rightarrow>
             Inr (map fst (filter (\<lambda>(g, c). \<not> c < apply_cap) (zip line_gids line_caps)),
                  filter (\<lambda>c. \<not> c < apply_cap) line_caps,
                  capacity', fs')))"

text \<open>
  The \<open>while True\<close> loop of \<open>_spread_substation_load\<close>. The last argument counts the
  calls of \<open>_fill_lines\<close> made so far; the source has no such counter.
\<close>

function spread_loop ::
  "features \<Rightarrow> gid list \<Rightarrow> real list \<Rightarrow> real \<Rightarrow> nat
     \<Rightarrow> error + (gid list \<times> real \<times> features \<times> nat)" where
  "spread_loop fs line_gids line_caps capacity k =
     (case fill_lines fs line_gids line_caps capacity of
        Inl e \<Rightarrow> Inl e
      | Inr (lines, line_caps', capacity', fs') \<Rightarrow>
          if length lines < length line_gids
          then spread_loop fs' lines line_caps' capacity' (Suc k)
          else Inr (lines, capacity', fs', Suc k))"
  by pat_completeness auto
termination
  by (relation "measure (\<lambda>(fs, line_gids, line_caps, capacity, k). length line_gids)") auto

declare spread_loop.simps [simp del]

text \<open>The final \<open>for gid in lines: self._connect(gid, apply_cap)\<close>.\<close>

fun connect_all :: "features \<Rightarrow> gid list \<Rightarrow> real \<Rightarrow> error + features" where
  "connect_all fs [] apply_cap = Inr fs"
| "connect_all fs (g # rest) apply_cap =
     (case connect_line fs g apply_cap of
        Inl e \<Rightarrow> Inl e
      | Inr fs' \<Rightarrow> connect_all fs' rest apply_cap)"

definition spread_substation_load ::
  "features \<Rightarrow> gid list \<Rightarrow> real list \<Rightarrow> real \<Rightarrow> error + features" where
  "spread_substation_load fs line_gids line_caps capacity =
     (case spread_loop fs line_gids line_caps capacity 0 of
        Inl e \<Rightarrow> Inl e
      | Inr (lines, capacity', fs', k) \<Rightarrow>
          if length lines = 0 then Inl ZeroDivisionError
          else connect_all fs' lines (capacity' / real (length lines)))"

text \<open>\<open>[self._features[gid]['avail_cap'] for gid in line_gids]\<close>\<close>

fun line_caps_of :: "features \<Rightarrow> gid list \<Rightarrow> error + real option list" where
  "line_caps_of fs [] = Inr []"
| "line_caps_of fs (g # rest) =
     (case fs g of
        None \<Rightarrow> Inl KeyError
      | Some f \<Rightarrow>
          (case avail_cap f of
             Inl e \<Rightarrow> Inl e
           | Inr c \<Rightarrow>
               (case line_caps_of fs rest of
                  Inl e \<Rightarrow> Inl e
                | Inr cs \<Rightarrow> Inr (c # cs))))"

text \<open>\<open>np.argmax\<close> on a non-empty array: the first position of the greatest value.\<close>

fun argmax :: "real list \<Rightarrow> nat" where
  "argmax [] = 0"
| "argmax [x] = 0"
| "argmax (x # y # ys) =
     (let i = argmax (y # ys) in if (y # ys) ! i > x then Suc i else 0)"

text \<open>
  \<open>np.nonzero(line_caps)\<close> keeps the positions whose entry is truthy: a number other
  than 0; \<open>None\<close> is falsy.
\<close>

definition non_zero :: "(gid \<times> real option) list \<Rightarrow> (gid \<times> real) list" where
  "non_zero gcs = concat (map (\<lambda>(g, c). case c of None \<Rightarrow> [] | Some a \<Rightarrow> if a = 0 then [] else [(g, a)]) gcs)"

text \<open>
  \<open>_connect_to_substation(line_gids, capacity, line_limited)\<close>. In line-limited mode
  \<open>np.argmax\<close> raises a ValueError on an empty array; an array that holds \<open>None\<close> ends in
  a TypeError, in \<open>np.argmax\<close> or in the comparison of \<open>_connect\<close>.
\<close>

definition connect_to_substation ::
  "features \<Rightarrow> gid list \<Rightarrow> real \<Rightarrow> bool \<Rightarrow> error + features" where
  "connect_to_substation fs line_gids capacity line_limited =
     (case line_caps_of fs line_gids of
        Inl e \<Rightarrow> Inl e
      | Inr line_caps \<Rightarrow>
          if line_limited then
            (if line_caps = [] then Inl ValueError
             else if None \<in> set line_caps then Inl TypeError
             else connect_line fs (line_gids ! argmax (map the line_caps)) capacity)
          else
            (let nz = non_zero (zip line_gids line_caps)
             in spread_substation_load fs (map fst nz) (map snd nz) capacity))"

text \<open>
  \<open>connect(gid, capacity, apply, **kwargs)\<close>; the only keyword argument that the
  methods reached from here read is \<open>line_limited\<close>.
\<close>

definition connect ::
  "catalog \<Rightarrow> gid \<Rightarrow> real \<Rightarrow> bool \<Rightarrow> bool \<Rightarrow> error + (bool \<times> catalog)" where
  "connect st g capacity apply line_limited =
     (case check_availability st g of
        Inl e \<Rightarrow> Inl e
      | Inr False \<Rightarrow> Inr (False, st)
      | Inr True \<Rightarrow>
          (case available_capacity st g line_limited of
             Inl e \<Rightarrow> Inl e
           | Inr (cap, warns) \<Rightarrow>
               if (case cap of None \<Rightarrow> False | Some a \<Rightarrow> capacity > a) then Inr (False, st)
               else if \<not> apply then Inr (True, st)
               else
                 (case features st g of
                    None \<Rightarrow> Inl KeyError
                  | Some f \<Rightarrow>
                      (case (case f of
                               TransLine a \<Rightarrow> connect_line (features st) g capacity
                             | Substation lines \<Rightarrow>
                                 connect_to_substation (features st) lines capacity line_limited
                             | LoadCen a \<Rightarrow> connect_line (features st) g capacity
                             | _ \<Rightarrow> Inr (features st)) of
                         Inl e \<Rightarrow> Inl e
                       | Inr fs' \<Rightarrow>
                           (case update_availability (st\<lparr>features := fs'\<rparr>) g of
                              Inl e \<Rightarrow> Inl e
                            | Inr st' \<Rightarrow> Inr (True, st'))))))"

subsection \<open>Cost model\<close>

definition calc_cost :: "real \<Rightarrow> real \<Rightarrow> real \<Rightarrow> real \<Rightarrow> real" where
  "calc_cost distance line_cost' tie_in_cost transmission_multiplier =
     distance * line_cost' * transmission_multiplier + tie_in_cost"

text \<open>The \<open>if\<close>/\<open>elif\<close> chain of \<open>cost\<close> that selects the tie-in cost by feature type.\<close>

fun tie_in_cost :: "catalog \<Rightarrow> feature \<Rightarrow> real" where
  "tie_in_cost st (TransLine c) = line_tie_in_cost st"
| "tie_in_cost st (Substation ls) = station_tie_in_cost st"
| "tie_in_cost st (LoadCen c) = center_tie_in_cost st"
| "tie_in_cost st PCALoadCen = sink_tie_in_cost st"
| "tie_in_cost st (Unknown name) = 0"

text \<open>
  \<open>cost(gid, distance, transmission_multiplier, capacity, **kwargs)\<close>: the result
  \<open>None\<close> says that no connection is possible. The catalog is returned as
  \<open>connect\<close> leaves it.
\<close>

definition cost ::
  "catalog \<Rightarrow> gid \<Rightarrow> real \<Rightarrow> real \<Rightarrow> real option \<Rightarrow> bool
     \<Rightarrow> error + (real option \<times> catalog)" where
  "cost st g distance transmission_multiplier capacity line_limited =
     (case features st g of
        None \<Rightarrow> Inl KeyError
      | Some f \<Rightarrow>
          (let c = calc_cost distance (line_cost st) (tie_in_cost st f) transmission_multiplier
           in case capacity of
                None \<Rightarrow> Inr (Some c, st)
              | Some cap \<Rightarrow>
                  (case connect st g cap False line_limited of
                     Inl e \<Rightarrow> Inl e
                   | Inr (connected', st') \<Rightarrow>
                       Inr (if \<not> connected' then None else Some c, st'))))"

subsection \<open>Building the catalog\<close>

text \<open>
  One row of the supply-curve transmission table, with the columns the class reads.
  \<open>trans_gids\<close> is the column after \<open>json.loads\<close>; \<open>transmission_multiplier\<close> is
  \<open>None\<close> where the table has no such column.
\<close>

record row =
  trans_line_gid :: gid
  category :: string
  ac_cap :: real
  trans_gids :: "gid list"
  dist_mi :: real
  transmission_multiplier :: "real option"

text \<open>
  What \<open>feature_costs\<close> and the constructor can be handed as \<open>trans_table\<close>: a
  DataFrame, a string (a path), or an object of another type.
\<close>

datatype trans_table = DataFrame "row list" | Path string | OtherObject

definition endswith :: "string \<Rightarrow> string \<Rightarrow> bool" where
  "endswith s suf = (length suf \<le> length s \<and> drop (length s - length suf) s = suf)"

text \<open>
  \<open>_parse_table\<close>. The readers \<open>pd.read_csv\<close> and \<open>pd.read_json\<close> are parameters: they
  map a path to the rows of the file, or to the error they raise.
\<close>

definition parse_table ::
  "(string \<Rightarrow> error + row list) \<Rightarrow> (string \<Rightarrow> error + row list) \<Rightarrow> trans_table
     \<Rightarrow> error + row list" where
  "parse_table read_csv read_json t =
     (case t of
        Path p \<Rightarrow>
          if endswith p ''.csv'' then read_csv p
          else if endswith p ''.json'' then read_json p
          else Inl ValueError
      | DataFrame rows \<Rightarrow> Inr rows
      | OtherObject \<Rightarrow> Inl ValueError)"

text \<open>The body of the loop of \<open>_features_from_table\<close>: the record built for one row.\<close>

definition feature_of_row :: "real \<Rightarrow> row \<Rightarrow> feature" where
  "feature_of_row cap_perc r =
     (let name = category r in
      if name = ''TransLine'' then TransLine (ac_cap r * cap_perc)
      else if name = ''Substation'' then Substation (trans_gids r)
      else if name = ''LoadCen'' then LoadCen (ac_cap r * cap_perc)
      else if name = ''PCALoadCen'' then PCALoadCen
      else Unknown name)"

text \<open>
  \<open>trans_table.groupby('trans_line_gid').first()\<close>: the groups in ascending order of
  the key, each with its first row (the rows of the model have no missing cell).
\<close>

definition groupby_first :: "row list \<Rightarrow> (gid \<times> row) list" where
  "groupby_first rows =
     map (\<lambda>g. (g, hd (filter (\<lambda>r. trans_line_gid r = g) rows)))
         (sort (remdups (map trans_line_gid rows)))"

definition features_from_table :: "real \<Rightarrow> row list \<Rightarrow> (gid \<times> feature) list" where
  "features_from_table cap_perc rows =
     map (\<lambda>(g, r). (g, feature_of_row cap_perc r)) (groupby_first rows)"

text \<open>
  \<open>_get_features\<close>: a dictionary of features, when given, is taken as it is (here
  already parsed, in the order of its keys); the table is parsed only without it.
\<close>

definition get_features ::
  "(string \<Rightarrow> error + row list) \<Rightarrow> (string \<Rightarrow> error + row list) \<Rightarrow> real
     \<Rightarrow> trans_table \<Rightarrow> (gid \<times> feature) list option \<Rightarrow> error + (gid \<times> feature) list" where
  "get_features read_csv read_json cap_perc t fdict =
     (case fdict of
        Some d \<Rightarrow> Inr d
      | None \<Rightarrow>
          (case parse_table read_csv read_json t of
             Inl e \<Rightarrow> Inl e
           | Inr rows \<Rightarrow> Inr (features_from_table cap_perc rows)))"

text \<open>The six numeric parameters of the constructor, with their defaults.\<close>

record params =
  p_line_tie_in_cost :: real
  p_line_cost :: real
  p_station_tie_in_cost :: real
  p_center_tie_in_cost :: real
  p_sink_tie_in_cost :: real
  p_available_capacity :: real

definition default_params :: params where
  "default_params =
     \<lparr>p_line_tie_in_cost = 14000, p_line_cost = 3667, p_station_tie_in_cost = 0,
      p_center_tie_in_cost = 0, p_sink_tie_in_cost = 0, p_available_capacity = 1 / 10\<rparr>"

text \<open>The catalog that \<open>__init__\<close> leaves once the dictionary of features is known.\<close>

definition catalog_of :: "params \<Rightarrow> (gid \<times> feature) list \<Rightarrow> catalog" where
  "catalog_of ps fl =
     \<lparr>features = map_of fl,
      feature_gid_list = map fst fl,
      available_mask = replicate (length fl) True,
      line_tie_in_cost = p_line_tie_in_cost ps,
      line_cost = p_line_cost ps,
      station_tie_in_cost = p_station_tie_in_cost ps,
      center_tie_in_cost = p_center_tie_in_cost ps,
      sink_tie_in_cost = p_sink_tie_in_cost ps,
      available_capacity_fraction = p_available_capacity ps\<rparr>"

definition init ::
  "(string \<Rightarrow> error + row list) \<Rightarrow> (string \<Rightarrow> error + row list) \<Rightarrow> params
     \<Rightarrow> trans_table \<Rightarrow> (gid \<times> feature) list option \<Rightarrow> error + catalog" where
  "init read_csv read_json ps t fdict =
     (case get_features read_csv read_json (p_available_capacity ps) t fdict of
        Inl e \<Rightarrow> Inl e
      | Inr fl \<Rightarrow> Inr (catalog_of ps fl))"

subsection \<open>Batch costing\<close>

text \<open>
  The loop of \<open>feature_costs\<close> over the rows: \<open>row.get('transmission_multiplier', 1)\<close>
  and one call of \<open>cost\<close> per row, on the one catalog.
\<close>

fun cost_rows ::
  "catalog \<Rightarrow> row list \<Rightarrow> real option \<Rightarrow> bool \<Rightarrow> error + (real option list \<times> catalog)" where
  "cost_rows st [] capacity line_limited = Inr ([], st)"
| "cost_rows st (r # rest) capacity line_limited =
     (let tm = (case transmission_multiplier r of None \<Rightarrow> 1 | Some m \<Rightarrow> m) in
      case cost st (trans_line_gid r) (dist_mi r) tm capacity line_limited of
        Inl e \<Rightarrow> Inl e
      | Inr (c, st') \<Rightarrow>
          (case cost_rows st' rest capacity line_limited of
             Inl e \<Rightarrow> Inl e
           | Inr (cs, st'') \<Rightarrow> Inr (c # cs, st'')))"

text \<open>
  \<open>feature_costs\<close>. The loop iterates \<open>trans_table.iterrows()\<close> on the argument as it
  was passed in, not on the table the constructor parsed: a string has no attribute
  \<open>iterrows\<close>. The result lists one cost per row, \<open>None\<close> standing for the
  not-a-number that \<open>np.array(costs, dtype='float32')\<close> makes of it; the rounding to
  32 bits is not modelled.
\<close>

definition feature_costs ::
  "(string \<Rightarrow> error + row list) \<Rightarrow> (string \<Rightarrow> error + row list) \<Rightarrow> params
     \<Rightarrow> trans_table \<Rightarrow> (gid \<times> feature) list option \<Rightarrow> real option \<Rightarrow> bool
     \<Rightarrow> error + real option list" where
  "feature_costs read_csv read_json ps t fdict capacity line_limited =
     (case init read_csv read_json ps t fdict of
        Inl e \<Rightarrow> Inl e
      | Inr feature \<Rightarrow>
          (case t of
             DataFrame rows \<Rightarrow>
               (case cost_rows feature rows capacity line_limited of
                  Inl e \<Rightarrow> Inl e
                | Inr (costs, st') \<Rightarrow> Inr costs)
           | _ \<Rightarrow> Inl AttributeError))"

subsection \<open>Vocabulary of the properties\<close>


text \<open>The stored capacity of a gid, read as 0 where there is no number to read.\<close>

definition cap_of :: "features \<Rightarrow> gid \<Rightarrow> real" where
  "cap_of fs g = (case fs g of Some (TransLine c) \<Rightarrow> c | Some (LoadCen c) \<Rightarrow> c | _ \<Rightarrow> 0)"



text \<open>
  A table of three rows: two lines of nameplate capacity 100 and 30 and the substation
  that joins them. With the default fraction 0.1 the lines start at 10 and 3.
\<close>

definition example_rows :: "row list" where
  "example_rows =
     [\<lparr>trans_line_gid = 3, category = ''Substation'', ac_cap = 0, trans_gids = [1, 2],
       dist_mi = 2, transmission_multiplier = None\<rparr>,
      \<lparr>trans_line_gid = 1, category = ''TransLine'', ac_cap = 100, trans_gids = [],
       dist_mi = 10, transmission_multiplier = None\<rparr>,
      \<lparr>trans_line_gid = 2, category = ''TransLine'', ac_cap = 30, trans_gids = [],
       dist_mi = 5, transmission_multiplier = Some 2\<rparr>]"

definition example_catalog :: catalog where
  "example_catalog = catalog_of default_params (features_from_table (1 / 10) example_rows)"


text \<open>Whether the record of a gid holds the number \<open>a\<close> under \<open>avail_cap\<close>.\<close>

definition has_cap :: "features \<Rightarrow> gid \<Rightarrow> real \<Rightarrow> bool" where
  "has_cap fs g a = (case fs g of None \<Rightarrow> False | Some f \<Rightarrow> avail_cap f = Inr (Some a))"

text \<open>
  \<open>reserved Q fs fs'\<close>: the dictionary \<open>fs'\<close> arises from \<open>fs\<close> by a sequence of
  successful \<open>_connect\<close> calls whose amounts all satisfy \<open>Q\<close>.
\<close>

inductive reserved :: "(real \<Rightarrow> bool) \<Rightarrow> features \<Rightarrow> features \<Rightarrow> bool" for Q where
  same: "reserved Q fs fs"
| step: "reserved Q fs fs1 \<Longrightarrow> Q a \<Longrightarrow> connect_line fs1 g a = Inr fs2 \<Longrightarrow> reserved Q fs fs2"



text \<open>
  A caller that issues \<open>connect(gid, capacity, apply=True, line_limited)\<close> calls one
  after the other on the same catalog; an exception ends the run.
\<close>

fun connects :: "catalog \<Rightarrow> (gid \<times> real \<times> bool) list \<Rightarrow> error + catalog" where
  "connects st [] = Inr st"
| "connects st ((g, c, ll) # rest) =
     (case connect st g c True ll of
        Inl e \<Rightarrow> Inl e
      | Inr (b, st') \<Rightarrow> connects st' rest)"

text \<open>The example catalog after \<open>connect(3, 6.5)\<close>: line 2 is drained, line 1 holds 6.5.\<close>

definition spread_catalog :: catalog where
  "spread_catalog =
     example_catalog\<lparr>features :=
       (features example_catalog)(2 \<mapsto> TransLine 0, 1 \<mapsto> TransLine (13 / 2))\<rparr>"

section \<open>Properties\<close>

subsection \<open>Lookups\<close>

lemma index_of_bound: "index_of xs g = Inr i \<Longrightarrow> i < length xs \<and> xs ! i = g"
  by (induction xs arbitrary: i) (auto split: if_splits sum.splits)

lemma index_of_member: "g \<in> set xs \<Longrightarrow> \<exists>i. index_of xs g = Inr i"
  by (induction xs) (auto split: sum.splits)

lemma check_availability_index:
  "check_availability st g = Inr b \<Longrightarrow>
     \<exists>i. index_of (feature_gid_list st) g = Inr i \<and> i < length (available_mask st)
         \<and> available_mask st ! i = b"
  by (auto simp: check_availability_def split: sum.splits if_splits)


subsection \<open>The example catalog\<close>

lemma example_features:
  "features_from_table (1 / 10) example_rows
     = [(1, TransLine 10), (2, TransLine 3), (3, Substation [1, 2])]"
  by (simp add: features_from_table_def groupby_first_def example_rows_def feature_of_row_def)

lemma example_catalog_fields:
  "features example_catalog = map_of [(1, TransLine 10), (2, TransLine 3), (3, Substation [1, 2])]"
  "feature_gid_list example_catalog = [1, 2, 3]"
  "available_mask example_catalog = [True, True, True]"
  "line_cost example_catalog = 3667"
  "line_tie_in_cost example_catalog = 14000"
  "station_tie_in_cost example_catalog = 0"
  by (simp_all add: example_catalog_def catalog_of_def example_features default_params_def)

lemma example_init:
  "init read_csv read_json default_params (DataFrame example_rows) None = Inr example_catalog"
  by (simp add: init_def get_features_def parse_table_def example_catalog_def default_params_def)

subsection \<open>Calls that only read\<close>

lemma connect_no_apply: "connect st g c False ll = Inr (b, st') \<Longrightarrow> st' = st"
  by (auto simp: connect_def split: sum.splits bool.splits if_splits prod.splits)

lemma cost_frame: "cost st g d m cap ll = Inr (r, st') \<Longrightarrow> st' = st"
  by (auto simp: cost_def Let_def split: option.splits sum.splits prod.splits
           dest: connect_no_apply)

lemma cost_rows_frame: "cost_rows st rows cap ll = Inr (cs, st') \<Longrightarrow> st' = st"
proof (induction rows arbitrary: st cs)
  case Nil
  then show ?case by simp
next
  case (Cons r rows)
  then show ?case
    by (auto simp: Let_def split: sum.splits prod.splits dest!: cost_frame)
qed

text \<open>
  C7. A cost query without a capacity and a connect with \<open>apply=False\<close> return the
  catalog exactly as they found it (features and availability mask), so the same call
  on the returned catalog gives the same result; the batch loop over the rows of a
  table, whatever the capacity it probes, returns the catalog unchanged as well.
\<close>

theorem read_only_paths:
  "(cost st g d m None ll = Inr (r, st') \<longrightarrow>
        st' = st \<and> cost st' g d m None ll = Inr (r, st'))
   \<and> (connect st g c False ll = Inr (b, st'') \<longrightarrow>
        st'' = st \<and> connect st'' g c False ll = Inr (b, st''))
   \<and> (cost_rows st rows cap ll = Inr (cs, st''') \<longrightarrow> st''' = st)"
  using cost_frame connect_no_apply cost_rows_frame by metis

theorem read_only_paths_witness:
  "cost example_catalog 1 10 1 None False = Inr (Some 50670, example_catalog)
   \<and> connect example_catalog 1 5 False False = Inr (True, example_catalog)
   \<and> cost_rows example_catalog example_rows (Some 6) False
       = Inr ([Some 7334, Some 50670, None], example_catalog)"
proof -
  have a: "cost example_catalog 1 10 1 None False = Inr (Some 50670, example_catalog)"
    by (simp add: cost_def calc_cost_def example_catalog_fields)
  have b: "connect example_catalog 1 5 False False = Inr (True, example_catalog)"
    by (simp add: connect_def check_availability_def available_capacity_def
          example_catalog_fields)
  have c: "cost_rows example_catalog example_rows (Some 6) False
       = Inr ([Some 7334, Some 50670, None], example_catalog)"
    by (simp add: example_rows_def cost_def calc_cost_def connect_def
          check_availability_def available_capacity_def substation_capacity_def
          example_catalog_fields)
  from a b c
    read_only_paths[of example_catalog 1 10 1 False "Some 50670" example_catalog
      5 True example_catalog example_rows "Some 6" "[Some 7334, Some 50670, None]"
      example_catalog]
  show ?thesis by simp
qed



subsection \<open>Simple features\<close>

lemma available_capacity_simple:
  "features st g = Some f \<Longrightarrow> f = TransLine a \<or> f = LoadCen a \<Longrightarrow>
     available_capacity st g ll = Inr (Some a, [])"
  by (auto simp: available_capacity_def)

lemma connect_simple_refused:
  assumes "features st g = Some f" and "f = TransLine a \<or> f = LoadCen a"
    and "check_availability st g = Inr flag" and "\<not> flag \<or> a < c"
  shows "connect st g c ap ll = Inr (False, st)"
  using assms by (cases flag) (auto simp: connect_def available_capacity_def)

lemma connect_simple_applied:
  assumes feat: "features st g = Some f" and kind: "f = TransLine a \<or> f = LoadCen a"
    and flag: "check_availability st g = Inr True" and le: "c \<le> a"
  shows "\<exists>st'. connect st g c True ll = Inr (True, st')
           \<and> features st' = (features st)(g \<mapsto> set_avail_cap f (a - c))
           \<and> feature_gid_list st' = feature_gid_list st
           \<and> (a - c \<noteq> 0 \<longrightarrow> available_mask st' = available_mask st)"
proof -
  from flag obtain i where i: "index_of (feature_gid_list st) g = Inr i"
      "i < length (available_mask st)"
    by (auto dest: check_availability_index)
  have av: "available_capacity st g ll = Inr (Some a, [])"
    using feat kind by (rule available_capacity_simple)
  have cl: "connect_line (features st) g c = Inr ((features st)(g \<mapsto> set_avail_cap f (a - c)))"
    using feat kind le by (auto simp: connect_line_def)
  let ?st1 = "st\<lparr>features := (features st)(g \<mapsto> set_avail_cap f (a - c))\<rparr>"
  have av1: "available_capacity ?st1 g False = Inr (Some (a - c), [])"
    using kind by (auto simp: available_capacity_def)
  show ?thesis
  proof (cases "a - c = 0")
    case True
    then have "update_availability ?st1 g
        = Inr (?st1\<lparr>available_mask := (available_mask st)[i := False]\<rparr>)"
      using av1 i by (simp add: update_availability_def)
    then show ?thesis
      using flag av cl le feat kind True by (auto simp: connect_def)
  next
    case False
    then have "update_availability ?st1 g = Inr ?st1"
      using av1 by (simp add: update_availability_def)
    then show ?thesis
      using flag av cl le feat kind False by (auto simp: connect_def)
  qed
qed

lemma map_of_features_from_table:
  assumes "g \<in> trans_line_gid ` set rows"
  shows "map_of (features_from_table p rows) g
           = Some (feature_of_row p (hd (filter (\<lambda>r. trans_line_gid r = g) rows)))"
proof -
  have "features_from_table p rows
      = map (\<lambda>k. (k, feature_of_row p (hd (filter (\<lambda>r. trans_line_gid r = k) rows))))
          (sort (remdups (map trans_line_gid rows)))"
    by (simp add: features_from_table_def groupby_first_def)
  then show ?thesis using assms by (simp add: map_of_map_restrict)
qed

lemma gids_features_from_table:
  "map fst (features_from_table p rows) = sort (remdups (map trans_line_gid rows))"
  by (simp add: features_from_table_def groupby_first_def comp_def)

lemma fresh_catalog_available:
  assumes "g \<in> fst ` set fl"
  shows "check_availability (catalog_of ps fl) g = Inr True"
proof -
  from assms have "g \<in> set (map fst fl)" by simp
  then obtain i where i: "index_of (map fst fl) g = Inr i"
    using index_of_member by blast
  then have "i < length fl" by (auto dest: index_of_bound)
  with i show ?thesis by (simp add: check_availability_def catalog_of_def)
qed

lemma check_availability_cong:
  "feature_gid_list st' = feature_gid_list st \<Longrightarrow> available_mask st' = available_mask st
     \<Longrightarrow> check_availability st' g = check_availability st g"
  by (auto simp: check_availability_def split: sum.splits)

lemma table_line_start:
  assumes first: "filter (\<lambda>r. trans_line_gid r = g) rows = r0 # others"
    and cat: "category r0 = ''TransLine''"
  shows "features (catalog_of ps (features_from_table p rows)) g = Some (TransLine (ac_cap r0 * p))"
    and "check_availability (catalog_of ps (features_from_table p rows)) g = Inr True"
proof -
  have "r0 \<in> set (filter (\<lambda>r. trans_line_gid r = g) rows)" using first by simp
  then have mem: "g \<in> trans_line_gid ` set rows" by auto
  show "features (catalog_of ps (features_from_table p rows)) g = Some (TransLine (ac_cap r0 * p))"
    using map_of_features_from_table[OF mem, of p] first cat
    by (simp add: catalog_of_def feature_of_row_def)
  have "g \<in> set (map fst (features_from_table p rows))"
    using mem by (simp only: gids_features_from_table) simp
  then show "check_availability (catalog_of ps (features_from_table p rows)) g = Inr True"
    by (intro fresh_catalog_available) simp
qed

text \<open>
  C3. For a TransLine or LoadCen \<open>g\<close> of available capacity \<open>a\<close>: when its
  availability flag is set and \<open>c \<le> a\<close>, \<open>connect(g, c, apply=True)\<close> returns true
  and leaves the available capacity of \<open>g\<close> at \<open>a - c\<close>; when \<open>c > a\<close> it returns false
  and leaves the catalog, so the capacity \<open>a\<close>, unchanged. In particular, in the catalog
  built from a table whose first row for a gid is a TransLine with \<open>ac_cap = 100\<close>, with
  the fraction 0.1, that line starts at 10; connecting 5 leaves 5, and a further request
  of 6 returns false and leaves 5.
\<close>

theorem connect_simple_feature:
  assumes feat: "features st g = Some f" and kind: "f = TransLine a \<or> f = LoadCen a"
    and flag: "check_availability st g = Inr flag"
    and first: "filter (\<lambda>r. trans_line_gid r = g0) rows = r0 # others"
    and cat: "category r0 = ''TransLine''" and cap: "ac_cap r0 = 100"
    and frac: "p_available_capacity ps = 1 / 10"
  shows "(flag \<and> c \<le> a \<longrightarrow>
            (\<exists>st'. connect st g c True ll = Inr (True, st')
                 \<and> available_capacity st' g ll = Inr (Some (a - c), [])))
       \<and> (a < c \<longrightarrow>
            connect st g c True ll = Inr (False, st)
            \<and> available_capacity st g ll = Inr (Some a, []))
       \<and> (\<exists>st0 st1.
            init read_csv read_json ps (DataFrame rows) None = Inr st0
            \<and> available_capacity st0 g0 ll = Inr (Some 10, [])
            \<and> connect st0 g0 5 True ll = Inr (True, st1)
            \<and> available_capacity st1 g0 ll = Inr (Some 5, [])
            \<and> connect st1 g0 6 True ll = Inr (False, st1))"
proof (intro conjI impI)
  assume "flag \<and> c \<le> a"
  then have flag': "check_availability st g = Inr True" and le: "c \<le> a"
    using flag by simp_all
  from connect_simple_applied[OF feat kind flag' le, of ll]
  obtain st' where st': "connect st g c True ll = Inr (True, st')"
      "features st' = (features st)(g \<mapsto> set_avail_cap f (a - c))"
    by blast
  have "available_capacity st' g ll = Inr (Some (a - c), [])"
    using st'(2) kind by (auto simp: available_capacity_def)
  with st'(1)
  show "\<exists>st'. connect st g c True ll = Inr (True, st')
            \<and> available_capacity st' g ll = Inr (Some (a - c), [])"
    by blast
next
  assume "a < c"
  then show "connect st g c True ll = Inr (False, st)"
    using connect_simple_refused[OF feat kind flag] by simp
next
  show "available_capacity st g ll = Inr (Some a, [])"
    using feat kind by (rule available_capacity_simple)
next
  let ?st0 = "catalog_of ps (features_from_table (1 / 10) rows)"
  have i0: "init read_csv read_json ps (DataFrame rows) None = Inr ?st0"
    by (simp add: init_def get_features_def parse_table_def frac)
  have f0: "features ?st0 g0 = Some (TransLine 10)"
    using table_line_start(1)[OF first cat, of ps "1 / 10"] cap by simp
  have c0: "check_availability ?st0 g0 = Inr True"
    using first cat by (rule table_line_start(2))
  have a0: "available_capacity ?st0 g0 ll = Inr (Some 10, [])"
    using f0 by (simp add: available_capacity_def)
  from connect_simple_applied[OF f0 _ c0, of 10 5 ll]
  obtain st1 where st1: "connect ?st0 g0 5 True ll = Inr (True, st1)"
      "features st1 = (features ?st0)(g0 \<mapsto> TransLine 5)"
      "feature_gid_list st1 = feature_gid_list ?st0"
      "available_mask st1 = available_mask ?st0"
    by auto
  have f1: "features st1 g0 = Some (TransLine 5)" using st1(2) by simp
  have a1: "available_capacity st1 g0 ll = Inr (Some 5, [])"
    using f1 by (simp add: available_capacity_def)
  have c1: "check_availability st1 g0 = Inr True"
    using c0 check_availability_cong[OF st1(3,4)] by simp
  have r1: "connect st1 g0 6 True ll = Inr (False, st1)"
    using connect_simple_refused[OF f1 _ c1, of 5 6 True ll] by simp
  from i0 a0 st1(1) a1 r1
  show "\<exists>st0 st1.
            init read_csv read_json ps (DataFrame rows) None = Inr st0
            \<and> available_capacity st0 g0 ll = Inr (Some 10, [])
            \<and> connect st0 g0 5 True ll = Inr (True, st1)
            \<and> available_capacity st1 g0 ll = Inr (Some 5, [])
            \<and> connect st1 g0 6 True ll = Inr (False, st1)"
    by blast
qed

theorem connect_simple_feature_witness:
  "features example_catalog 2 = Some (TransLine 3)
   \<and> check_availability example_catalog 2 = Inr True
   \<and> filter (\<lambda>r. trans_line_gid r = 1) example_rows = [example_rows ! 1]
   \<and> category (example_rows ! 1) = ''TransLine'' \<and> ac_cap (example_rows ! 1) = 100
   \<and> p_available_capacity default_params = 1 / 10
   \<and> (\<exists>st'. connect example_catalog 2 3 True False = Inr (True, st')
          \<and> available_capacity st' 2 False = Inr (Some 0, []))
   \<and> connect example_catalog 2 4 True False = Inr (False, example_catalog)
   \<and> (\<exists>st1. connect example_catalog 1 5 True False = Inr (True, st1)
          \<and> available_capacity st1 1 False = Inr (Some 5, [])
          \<and> connect st1 1 6 True False = Inr (False, st1))"
proof -
  have h1: "features example_catalog 2 = Some (TransLine 3)"
    by (simp add: example_catalog_fields)
  have h2: "TransLine 3 = TransLine 3 \<or> TransLine 3 = LoadCen 3" by simp
  have h3: "check_availability example_catalog 2 = Inr True"
    by (simp add: check_availability_def example_catalog_fields)
  have h4: "filter (\<lambda>r. trans_line_gid r = 1) example_rows = example_rows ! 1 # []"
    by (simp add: example_rows_def)
  have h5: "category (example_rows ! 1) = ''TransLine''" by (simp add: example_rows_def)
  have h6: "ac_cap (example_rows ! 1) = 100" by (simp add: example_rows_def)
  have h7: "p_available_capacity default_params = 1 / 10" by (simp add: default_params_def)
  note t = connect_simple_feature[OF h1 h2 h3 h4 h5 h6 h7]
  have i: "init read_csv read_json default_params (DataFrame example_rows) None
             = Inr example_catalog" for read_csv read_json
    by (rule example_init)
  from t[of 3 False] have a: "\<exists>st'. connect example_catalog 2 3 True False = Inr (True, st')
          \<and> available_capacity st' 2 False = Inr (Some 0, [])"
    by simp
  from t[of 4 False] have b: "connect example_catalog 2 4 True False = Inr (False, example_catalog)"
    by simp
  from t[of 3 False] i have c: "\<exists>st1. connect example_catalog 1 5 True False = Inr (True, st1)
          \<and> available_capacity st1 1 False = Inr (Some 5, [])
          \<and> connect st1 1 6 True False = Inr (False, st1)"
    by auto
  show ?thesis using h1 h3 h4 h5 h6 h7 a b c by simp
qed

subsection \<open>Derived capacity of a substation\<close>






subsection \<open>Two lines of capacity 10 and 3\<close>

text \<open>
  C2, as the claim states it, fails: in the example catalog (lines 1 and 2 at 10 and 3,
  substation 3 joining them) \<open>connect(3, 10)\<close> returns false and changes nothing, the
  derived capacity of the substation being 13/2.
\<close>

theorem connect_10_refused_counterexample:
  "features example_catalog 1 = Some (TransLine 10)
   \<and> features example_catalog 2 = Some (TransLine 3)
   \<and> features example_catalog 3 = Some (Substation [1, 2])
   \<and> check_availability example_catalog 3 = Inr True
   \<and> connect example_catalog 3 10 True False = Inr (False, example_catalog)"
  by (simp add: connect_def check_availability_def available_capacity_def
        substation_capacity_def example_catalog_fields)

text \<open>
  C2, amended. For a substation whose two member TransLines have available capacities
  10 and 3, the spreading step \<open>_connect_to_substation\<close>, asked for 10 in
  non-line-limited mode, fills the capacity-3 line entirely and reserves the remaining
  7 from the other line, ending with 3 and 0. \<open>connect\<close> does not take that step for a
  request of 10: the derived capacity of the substation is 13/2, the request is
  infeasible, and the catalog stays as it was.
\<close>

theorem spread_10_over_10_and_3:
  assumes ne: "g1 \<noteq> g2"
    and l1: "features st g1 = Some (TransLine 10)"
    and l2: "features st g2 = Some (TransLine 3)"
    and sub: "features st s = Some (Substation [g1, g2])"
    and flag: "check_availability st s = Inr True"
  shows "connect_to_substation (features st) [g1, g2] 10 False
           = Inr ((features st)(g2 \<mapsto> TransLine 0, g1 \<mapsto> TransLine 3))
       \<and> available_capacity st s False = Inr (Some (13 / 2), [])
       \<and> connect st s 10 True False = Inr (False, st)"
proof (intro conjI)
  show "connect_to_substation (features st) [g1, g2] 10 False
           = Inr ((features st)(g2 \<mapsto> TransLine 0, g1 \<mapsto> TransLine 3))"
    using ne l1 l2
    by (simp add: connect_to_substation_def non_zero_def spread_substation_load_def
          spread_loop.simps fill_lines_def connect_line_def)
  show av: "available_capacity st s False = Inr (Some (13 / 2), [])"
    using l1 l2 sub by (simp add: available_capacity_def substation_capacity_def)
  show "connect st s 10 True False = Inr (False, st)"
    using flag av by (simp add: connect_def)
qed

theorem spread_10_over_10_and_3_witness:
  "(1::gid) \<noteq> 2
   \<and> features example_catalog 1 = Some (TransLine 10)
   \<and> features example_catalog 2 = Some (TransLine 3)
   \<and> features example_catalog 3 = Some (Substation [1, 2])
   \<and> check_availability example_catalog 3 = Inr True
   \<and> (\<exists>fs'. connect_to_substation (features example_catalog) [1, 2] 10 False = Inr fs'
          \<and> fs' 1 = Some (TransLine 3) \<and> fs' 2 = Some (TransLine 0))
   \<and> connect example_catalog 3 10 True False = Inr (False, example_catalog)"
proof -
  have h0: "(1::gid) \<noteq> 2" by simp
  have h1: "features example_catalog 1 = Some (TransLine 10)"
    by (simp add: example_catalog_fields)
  have h2: "features example_catalog 2 = Some (TransLine 3)"
    by (simp add: example_catalog_fields)
  have h3: "features example_catalog 3 = Some (Substation [1, 2])"
    by (simp add: example_catalog_fields)
  have h4: "check_availability example_catalog 3 = Inr True"
    by (simp add: check_availability_def example_catalog_fields)
  from spread_10_over_10_and_3[OF h0 h1 h2 h3 h4]
  show ?thesis using h1 h2 h3 h4 by simp
qed

subsection \<open>Batch costing of a table given by its path\<close>

text \<open>
  C10. The claim holds for a DataFrame only. Handed a path, \<open>feature_costs\<close> lets the
  constructor read and parse the file, then iterates over the string itself: whatever
  the file holds, the call ends in an AttributeError and returns no array.
\<close>

theorem feature_costs_path:
  "feature_costs (\<lambda>p. Inr rows) (\<lambda>p. Inr rows) ps (Path ''table.csv'') None capacity ll
     = Inl AttributeError
   \<and> feature_costs (\<lambda>p. Inr rows) (\<lambda>p. Inr rows) ps (Path ''table.json'') None capacity ll
     = Inl AttributeError
   \<and> feature_costs read_csv read_json ps (Path p) fdict capacity ll \<noteq> Inr costs"
  by (simp add: feature_costs_def init_def get_features_def parse_table_def endswith_def
        split: sum.splits option.splits)

subsection \<open>One reservation\<close>

lemma connect_line_Inr:
  assumes "connect_line fs g a = Inr fs'"
  shows "\<exists>f c. fs g = Some f \<and> avail_cap f = Inr (Some c) \<and> a \<le> c
            \<and> fs' = fs(g \<mapsto> set_avail_cap f (c - a))"
  using assms
  by (auto simp: connect_line_def split: option.splits sum.splits if_splits)

lemma avail_cap_Some:
  "avail_cap f = Inr (Some c) \<longleftrightarrow> f = TransLine c \<or> f = LoadCen c"
  by (cases f) auto

lemma connect_line_cap:
  assumes "connect_line fs g a = Inr fs'"
  shows "cap_of fs' g = cap_of fs g - a" and "0 \<le> cap_of fs' g"
    and "h \<noteq> g \<Longrightarrow> fs' h = fs h"
  using connect_line_Inr[OF assms]
  by (auto simp: cap_of_def avail_cap_Some)

lemma connect_line_other_cap:
  "connect_line fs g a = Inr fs' \<Longrightarrow> h \<noteq> g \<Longrightarrow> cap_of fs' h = cap_of fs h"
  by (simp add: cap_of_def connect_line_cap(3))


subsection \<open>Capacity is conserved by the spreading\<close>


lemma fill_lines_Inr:
  assumes "fill_lines fs gs cs c = Inr (gs', cs', c', fs')"
  shows "gs \<noteq> []"
    and "fill_loop fs (filter (\<lambda>(g, a). a < c / real (length gs)) (zip gs cs)) c = Inr (fs', c')"
    and "gs' = map fst (filter (\<lambda>(g, a). \<not> a < c / real (length gs)) (zip gs cs))"
    and "cs' = filter (\<lambda>a. \<not> a < c / real (length gs)) cs"
  using assms
  by (auto simp: fill_lines_def Let_def split: if_splits sum.splits)






subsection \<open>No reservation leaves a line below zero\<close>









subsection \<open>The lines a substation spreads over\<close>

lemma line_caps_of_Inr:
  "line_caps_of fs lines = Inr caps \<Longrightarrow>
     list_all2 (\<lambda>g c. \<exists>f. fs g = Some f \<and> avail_cap f = Inr c) lines caps"
  by (induction lines arbitrary: caps) (auto split: option.splits sum.splits)

lemma non_zero_Cons:
  "non_zero ((g, c) # rest)
     = (case c of None \<Rightarrow> [] | Some a \<Rightarrow> if a = 0 then [] else [(g, a)]) @ non_zero rest"
  by (simp add: non_zero_def)

lemma non_zero_Nil: "non_zero [] = []"
  by (simp add: non_zero_def)

lemma non_zero_set:
  "set (non_zero gcs) = {(g, a). (g, Some a) \<in> set gcs \<and> a \<noteq> 0}"
  by (induction gcs) (auto simp: non_zero_Cons non_zero_Nil split: option.splits if_splits)



lemma connect_to_substation_spread:
  assumes "connect_to_substation fs lines c False = Inr fs'"
  shows "\<exists>caps. line_caps_of fs lines = Inr caps
           \<and> spread_substation_load fs (map fst (non_zero (zip lines caps)))
                (map snd (non_zero (zip lines caps))) c = Inr fs'"
  using assms
  by (auto simp: connect_to_substation_def Let_def split: sum.splits)



lemma update_availability_features:
  "update_availability st g = Inr st' \<Longrightarrow>
     features st' = features st \<and> feature_gid_list st' = feature_gid_list st
     \<and> length (available_mask st') = length (available_mask st)
     \<and> (\<forall>i. \<not> available_mask st ! i \<longrightarrow> i < length (available_mask st)
            \<longrightarrow> \<not> available_mask st' ! i)"
  by (auto simp: update_availability_def nth_list_update
           split: sum.splits prod.splits if_splits)




subsection \<open>The spreading over distinct lines\<close>
















lemma non_zero_has_cap:
  assumes all: "list_all2 (\<lambda>g c. \<exists>f. fs g = Some f \<and> avail_cap f = Inr c) lines caps"
    and mem: "(g, a) \<in> set (non_zero (zip lines caps))"
  shows "has_cap fs g a"
proof -
  from mem have "(g, Some a) \<in> set (zip lines caps)" by (simp add: non_zero_set)
  then obtain i where i: "i < length lines" "i < length caps" "lines ! i = g" "caps ! i = Some a"
    by (auto simp: set_zip)
  with all have "\<exists>f. fs g = Some f \<and> avail_cap f = Inr (Some a)"
    by (auto simp: list_all2_conv_all_nth)
  then show ?thesis by (auto simp: has_cap_def)
qed










subsection \<open>What a sequence of reservations preserves\<close>

lemma reserved_trans:
  assumes "reserved Q b c" and "reserved Q a b"
  shows "reserved Q a c"
  using assms by (induction rule: reserved.induct) (auto intro: reserved.intros)

lemma reserved_one: "Q a \<Longrightarrow> connect_line fs g a = Inr fs' \<Longrightarrow> reserved Q fs fs'"
  by (rule reserved.step[OF reserved.same])

lemma fill_loop_reserved:
  assumes "fill_loop fs ps c = Inr (fs', c')" and "\<forall>(g, a) \<in> set ps. Q a"
  shows "reserved Q fs fs'"
  using assms
proof (induction ps arbitrary: fs c)
  case Nil
  then show ?case by (simp add: reserved.same)
next
  case (Cons p ps)
  obtain g a where p: "p = (g, a)" by (cases p)
  from Cons.prems(1) p obtain fs1 where
    one: "connect_line fs g a = Inr fs1" and
    rest: "fill_loop fs1 ps (c - a) = Inr (fs', c')"
    by (auto split: sum.splits)
  have "Q a" using Cons.prems(2) p by simp
  then have r1: "reserved Q fs fs1" using one by (rule reserved_one)
  have "reserved Q fs1 fs'" using rest Cons.prems(2) by (intro Cons.IH) auto
  then show ?case using r1 by (rule reserved_trans)
qed

lemma fill_loop_capacity:
  "fill_loop fs ps c = Inr (fs', c') \<Longrightarrow> c' = c - sum_list (map snd ps)"
proof (induction ps arbitrary: fs c)
  case Nil
  then show ?case by simp
next
  case (Cons p ps)
  obtain g a where p: "p = (g, a)" by (cases p)
  from Cons.prems p obtain fs1 where
    rest: "fill_loop fs1 ps (c - a) = Inr (fs', c')"
    by (auto split: sum.splits)
  from Cons.IH[OF rest] p show ?case by simp
qed

lemma fill_lines_reserved:
  assumes ok: "fill_lines fs gs cs c = Inr (gs', cs', c', fs')" and q: "\<forall>a \<in> set cs. Q a"
  shows "reserved Q fs fs'" and "set cs' \<subseteq> set cs"
proof -
  have "\<forall>(g, a) \<in> set (filter (\<lambda>(g, a). a < c / real (length gs)) (zip gs cs)). Q a"
    using q by (auto dest: set_zip_rightD)
  with fill_lines_Inr(2)[OF ok] show "reserved Q fs fs'" by (rule fill_loop_reserved)
  show "set cs' \<subseteq> set cs" unfolding fill_lines_Inr(4)[OF ok] by auto
qed

lemma spread_loop_reserved:
  assumes "spread_loop fs gs cs c k = Inr (lines, c', fs', k')" and "\<forall>a \<in> set cs. Q a"
  shows "reserved Q fs fs'"
  using assms
proof (induction fs gs cs c k rule: spread_loop.induct)
  case (1 fs gs cs c k)
  from "1.prems"(1) obtain gs1 cs1 c1 fs1 where
    fl: "fill_lines fs gs cs c = Inr (gs1, cs1, c1, fs1)"
    by (subst (asm) spread_loop.simps) (auto split: sum.splits)
  note r1 = fill_lines_reserved(1)[OF fl "1.prems"(2)]
  have q1: "\<forall>a \<in> set cs1. Q a"
    using fill_lines_reserved(2)[OF fl "1.prems"(2)] "1.prems"(2) by blast
  show ?case
  proof (cases "length gs1 < length gs")
    case True
    with "1.prems"(1) fl
    have rec: "spread_loop fs1 gs1 cs1 c1 (Suc k) = Inr (lines, c', fs', k')"
      by (subst (asm) spread_loop.simps) simp
    from "1.IH"[OF fl refl refl refl True rec q1] r1 show ?thesis
      by (rule reserved_trans)
  next
    case False
    with "1.prems"(1) fl have "fs' = fs1"
      by (subst (asm) spread_loop.simps) simp
    with r1 show ?thesis by simp
  qed
qed

lemma connect_all_reserved:
  assumes "connect_all fs gs s = Inr fs'" and "Q s"
  shows "reserved Q fs fs'"
  using assms
proof (induction gs arbitrary: fs)
  case Nil
  then show ?case by (simp add: reserved.same)
next
  case (Cons g gs)
  from Cons.prems(1) obtain fs1 where
    one: "connect_line fs g s = Inr fs1" and rest: "connect_all fs1 gs s = Inr fs'"
    by (auto split: sum.splits)
  have r1: "reserved Q fs fs1" using Cons.prems(2) one by (rule reserved_one)
  have "reserved Q fs1 fs'" using rest Cons.prems(2) by (rule Cons.IH)
  then show ?case using r1 by (rule reserved_trans)
qed








subsection \<open>Length of the spreading loop\<close>









subsection \<open>Reservations of non-negative amounts\<close>

lemma reserved_mono:
  "reserved (\<lambda>a. 0 \<le> a) fs fs' \<Longrightarrow> cap_of fs' h \<le> cap_of fs h"
proof (induction rule: reserved.induct)
  case (same fs)
  show ?case by simp
next
  case (step fs fs1 a g fs2)
  show ?case
  proof (cases "h = g")
    case True
    with connect_line_cap(1)[OF step.hyps(3)] step.hyps(2) step.IH show ?thesis by simp
  next
    case False
    with connect_line_other_cap[OF step.hyps(3)] step.IH show ?thesis by simp
  qed
qed

lemma reserved_nonneg:
  "reserved Q fs fs' \<Longrightarrow> 0 \<le> cap_of fs h \<Longrightarrow> 0 \<le> cap_of fs' h"
proof (induction rule: reserved.induct)
  case (same fs)
  then show ?case by simp
next
  case (step fs fs1 a g fs2)
  show ?case
  proof (cases "h = g")
    case True
    with connect_line_cap(2)[OF step.hyps(3)] show ?thesis by simp
  next
    case False
    with connect_line_other_cap[OF step.hyps(3)] step.IH step.prems show ?thesis by simp
  qed
qed

lemma reserved_weaken: "reserved Q fs fs' \<Longrightarrow> reserved (\<lambda>a. True) fs fs'"
  by (induction rule: reserved.induct) (auto intro: reserved.intros)

lemma sum_list_at_most:
  fixes xs :: "real list"
  assumes "\<forall>x \<in> set xs. x \<le> b"
  shows "sum_list xs \<le> b * real (length xs)"
  using assms by (induction xs) (auto simp: algebra_simps)

lemma fill_lines_capacity_nonneg:
  assumes ok: "fill_lines fs gs cs c = Inr (gs', cs', c', fs')" and c: "0 \<le> c"
  shows "0 \<le> c'"
proof -
  let ?n = "real (length gs)"
  let ?low = "filter (\<lambda>(g, a). a < c / ?n) (zip gs cs)"
  have n: "0 < ?n" using fill_lines_Inr(1)[OF ok] by simp
  have c': "c' = c - sum_list (map snd ?low)"
    using fill_lines_Inr(2)[OF ok] by (rule fill_loop_capacity)
  have "\<forall>x \<in> set (map snd ?low). x \<le> c / ?n" by auto
  then have "sum_list (map snd ?low) \<le> c / ?n * real (length (map snd ?low))"
    by (rule sum_list_at_most)
  also have "\<dots> \<le> c / ?n * ?n"
  proof (rule mult_left_mono)
    have "length ?low \<le> length (zip gs cs)" by (rule length_filter_le)
    also have "\<dots> \<le> length gs" by simp
    finally show "real (length (map snd ?low)) \<le> ?n" by simp
    show "0 \<le> c / ?n" using c n by simp
  qed
  also have "\<dots> = c" using n by simp
  finally show ?thesis using c' by simp
qed

lemma spread_loop_capacity_nonneg:
  assumes "spread_loop fs gs cs c k = Inr (lines, c', fs', k')" and "0 \<le> c"
  shows "0 \<le> c'"
  using assms
proof (induction fs gs cs c k rule: spread_loop.induct)
  case (1 fs gs cs c k)
  from "1.prems"(1) obtain gs1 cs1 c1 fs1 where
    fl: "fill_lines fs gs cs c = Inr (gs1, cs1, c1, fs1)"
    by (subst (asm) spread_loop.simps) (auto split: sum.splits)
  note c1 = fill_lines_capacity_nonneg[OF fl "1.prems"(2)]
  show ?case
  proof (cases "length gs1 < length gs")
    case True
    with "1.prems"(1) fl
    have rec: "spread_loop fs1 gs1 cs1 c1 (Suc k) = Inr (lines, c', fs', k')"
      by (subst (asm) spread_loop.simps) simp
    from "1.IH"[OF fl refl refl refl True rec c1] show ?thesis .
  next
    case False
    with "1.prems"(1) fl have "c' = c1"
      by (subst (asm) spread_loop.simps) simp
    with c1 show ?thesis by simp
  qed
qed

lemma spread_substation_load_nonneg_amounts:
  assumes ok: "spread_substation_load fs gs cs c = Inr fs'"
    and c: "0 \<le> c" and cs: "\<forall>a \<in> set cs. 0 \<le> a"
  shows "reserved (\<lambda>a. 0 \<le> a) fs fs'"
proof -
  from ok obtain lines c1 fs1 k1 where
    loop: "spread_loop fs gs cs c 0 = Inr (lines, c1, fs1, k1)" and
    fin_all: "connect_all fs1 lines (c1 / real (length lines)) = Inr fs'"
    by (auto simp: spread_substation_load_def split: sum.splits if_splits)
  have r1: "reserved (\<lambda>a. 0 \<le> a) fs fs1" using loop cs by (rule spread_loop_reserved)
  have "0 \<le> c1" using loop c by (rule spread_loop_capacity_nonneg)
  then have "0 \<le> c1 / real (length lines)" by simp
  with fin_all have "reserved (\<lambda>a. 0 \<le> a) fs1 fs'" by (rule connect_all_reserved)
  then show ?thesis using r1 by (rule reserved_trans)
qed

lemma has_cap_cap_of: "has_cap fs g a \<Longrightarrow> cap_of fs g = a"
  by (auto simp: has_cap_def cap_of_def avail_cap_Some split: option.splits)

lemma connect_to_substation_nonneg_amounts:
  assumes cts: "connect_to_substation fs lines c ll = Inr fs'"
    and c: "0 \<le> c" and caps: "\<forall>h. 0 \<le> cap_of fs h"
  shows "reserved (\<lambda>a. 0 \<le> a) fs fs'"
proof (cases ll)
  case True
  with cts obtain g where "connect_line fs g c = Inr fs'"
    by (auto simp: connect_to_substation_def split: sum.splits if_splits)
  with c show ?thesis by (intro reserved_one)
next
  case False
  with cts have cts': "connect_to_substation fs lines c False = Inr fs'" by simp
  from connect_to_substation_spread[OF cts'] obtain cs where
    lc: "line_caps_of fs lines = Inr cs" and
    sp: "spread_substation_load fs (map fst (non_zero (zip lines cs)))
           (map snd (non_zero (zip lines cs))) c = Inr fs'"
    by blast
  have "\<forall>a \<in> set (map snd (non_zero (zip lines cs))). 0 \<le> a"
  proof
    fix a assume "a \<in> set (map snd (non_zero (zip lines cs)))"
    then obtain g where "(g, a) \<in> set (non_zero (zip lines cs))" by auto
    from non_zero_has_cap[OF line_caps_of_Inr[OF lc] this]
    have "cap_of fs g = a" by (rule has_cap_cap_of)
    with caps show "0 \<le> a" by metis
  qed
  with sp c show ?thesis by (rule spread_substation_load_nonneg_amounts)
qed

subsection \<open>What one connect does to the catalog\<close>

lemma connect_refused_same: "connect st g c ap ll = Inr (False, st') \<Longrightarrow> st' = st"
  by (auto simp: connect_def
           split: sum.splits bool.splits prod.splits if_splits option.splits)

lemma features_update_same: "st\<lparr>features := features st\<rparr> = st"
  by simp

lemma connect_applied:
  assumes "connect st g c True ll = Inr (True, st')"
  shows "\<exists>fs'. update_availability (st\<lparr>features := fs'\<rparr>) g = Inr st'
           \<and> (fs' = features st
                \<or> connect_line (features st) g c = Inr fs'
                \<or> (\<exists>lines. connect_to_substation (features st) lines c ll = Inr fs'))"
proof -
  from assms obtain f where f: "features st g = Some f"
    by (auto simp: connect_def split: sum.splits bool.splits prod.splits if_splits option.splits)
  from assms f obtain fs' where
    how: "(case f of
             TransLine a \<Rightarrow> connect_line (features st) g c
           | Substation lines \<Rightarrow> connect_to_substation (features st) lines c ll
           | LoadCen a \<Rightarrow> connect_line (features st) g c
           | _ \<Rightarrow> Inr (features st)) = Inr fs'"
    and upd: "update_availability (st\<lparr>features := fs'\<rparr>) g = Inr st'"
    by (auto simp: connect_def split: sum.splits bool.splits prod.splits if_splits)
  from how have "fs' = features st
      \<or> connect_line (features st) g c = Inr fs'
      \<or> (\<exists>lines. connect_to_substation (features st) lines c ll = Inr fs')"
    by (cases f) auto
  with upd show ?thesis by blast
qed

lemma connect_reserved:
  assumes ok: "connect st g c True ll = Inr (b, st')"
    and c: "0 \<le> c" and caps: "\<forall>h. 0 \<le> cap_of (features st) h"
  shows "reserved (\<lambda>a. 0 \<le> a) (features st) (features st')"
proof (cases b)
  case False
  with ok have "st' = st" by (auto dest: connect_refused_same)
  then show ?thesis by (simp add: reserved.same)
next
  case True
  with ok have "connect st g c True ll = Inr (True, st')" by simp
  from connect_applied[OF this] obtain fs' where
    upd: "update_availability (st\<lparr>features := fs'\<rparr>) g = Inr st'" and
    how: "fs' = features st
          \<or> connect_line (features st) g c = Inr fs'
          \<or> (\<exists>lines. connect_to_substation (features st) lines c ll = Inr fs')"
    by blast
  have fs': "features st' = fs'" using update_availability_features[OF upd] by simp
  from how have "reserved (\<lambda>a. 0 \<le> a) (features st) fs'"
  proof (elim disjE exE)
    assume "fs' = features st"
    then show ?thesis by (simp add: reserved.same)
  next
    assume "connect_line (features st) g c = Inr fs'"
    with c show ?thesis by (intro reserved_one)
  next
    fix lines assume "connect_to_substation (features st) lines c ll = Inr fs'"
    then show ?thesis using c caps by (rule connect_to_substation_nonneg_amounts)
  qed
  with fs' show ?thesis by simp
qed

lemma connect_mask:
  assumes "connect st g c ap ll = Inr (b, st')"
  shows "feature_gid_list st' = feature_gid_list st"
    and "length (available_mask st') = length (available_mask st)"
    and "i < length (available_mask st) \<Longrightarrow> \<not> available_mask st ! i
           \<Longrightarrow> \<not> available_mask st' ! i"
  using assms
  by (auto simp: connect_def
           split: sum.splits bool.splits prod.splits if_splits option.splits
           dest!: update_availability_features)

lemma connect_flag_stays:
  assumes ok: "connect st g c ap ll = Inr (b, st')"
    and off: "check_availability st h = Inr False"
  shows "check_availability st' h = Inr False"
proof -
  from off obtain i where i: "index_of (feature_gid_list st) h = Inr i"
      "i < length (available_mask st)" "\<not> available_mask st ! i"
    by (auto dest: check_availability_index)
  from connect_mask[OF ok] i show ?thesis
    by (simp add: check_availability_def)
qed

lemma connects_flag_stays:
  assumes "connects st calls = Inr st'" and "check_availability st h = Inr False"
  shows "check_availability st' h = Inr False"
  using assms
proof (induction calls arbitrary: st)
  case Nil
  then show ?case by simp
next
  case (Cons call calls)
  obtain g c ll where call: "call = (g, c, ll)" by (cases call)
  from Cons.prems(1) call obtain b st1 where
    one: "connect st g c True ll = Inr (b, st1)" and rest: "connects st1 calls = Inr st'"
    by (auto split: sum.splits)
  from rest connect_flag_stays[OF one Cons.prems(2)] show ?case by (rule Cons.IH)
qed

end
